theory Spec2Isabelle
  imports Complex_Main "HOL-Library.Word"
begin

section \<open>Scalars: the f32 values of the Taichi fields\<close>

text \<open>
  The fields of \<^verbatim>\<open>mess_spring_explicit.py\<close> hold 32-bit floats. The model keeps the
  four kinds of value an IEEE-754 float can have: a finite number, the two infinities and
  NaN. Arithmetic on finite values is exact real arithmetic: rounding, overflow of a finite
  result to an infinity and the sign of zero are not modelled. The special values follow
  IEEE-754: a division of a non-zero number by zero is an infinity, \<open>0 / 0\<close>,
  \<open>\<infinity> - \<infinity>\<close> and \<open>0 * \<infinity>\<close> are NaN, NaN is absorbing, and every ordered
  comparison with NaN is false.
\<close>

datatype f32 = Fin real | PInf | NInf | NaN

type_synonym i32 = "32 word"

fun is_neg :: "f32 \<Rightarrow> bool" where
  "is_neg (Fin a) = (a < 0)"
| "is_neg NInf = True"
| "is_neg PInf = False"
| "is_neg NaN = False"

definition signed_inf :: "bool \<Rightarrow> f32" where
  "signed_inf neg = (if neg then NInf else PInf)"

fun fneg :: "f32 \<Rightarrow> f32" where
  "fneg (Fin a) = Fin (- a)"
| "fneg PInf = NInf"
| "fneg NInf = PInf"
| "fneg NaN = NaN"

fun fadd :: "f32 \<Rightarrow> f32 \<Rightarrow> f32" where
  "fadd (Fin a) (Fin b) = Fin (a + b)"
| "fadd NaN _ = NaN"
| "fadd _ NaN = NaN"
| "fadd PInf NInf = NaN"
| "fadd NInf PInf = NaN"
| "fadd PInf _ = PInf"
| "fadd NInf _ = NInf"
| "fadd (Fin a) b = b"

definition fsub :: "f32 \<Rightarrow> f32 \<Rightarrow> f32" where
  "fsub a b = fadd a (fneg b)"

fun fmul :: "f32 \<Rightarrow> f32 \<Rightarrow> f32" where
  "fmul (Fin a) (Fin b) = Fin (a * b)"
| "fmul NaN _ = NaN"
| "fmul _ NaN = NaN"
| "fmul a b = (if a = Fin 0 \<or> b = Fin 0 then NaN else signed_inf (is_neg a \<noteq> is_neg b))"

fun fdiv :: "f32 \<Rightarrow> f32 \<Rightarrow> f32" where
  "fdiv NaN _ = NaN"
| "fdiv _ NaN = NaN"
| "fdiv (Fin a) (Fin b) =
     (if b \<noteq> 0 then Fin (a / b) else if a = 0 then NaN else signed_inf (a < 0))"
| "fdiv (Fin a) _ = Fin 0"
| "fdiv a (Fin b) = signed_inf (is_neg a \<noteq> (b < 0))"
| "fdiv _ _ = NaN"

fun fsqrt :: "f32 \<Rightarrow> f32" where
  "fsqrt (Fin a) = (if a < 0 then NaN else Fin (sqrt a))"
| "fsqrt PInf = PInf"
| "fsqrt NInf = NaN"
| "fsqrt NaN = NaN"

fun fexp :: "f32 \<Rightarrow> f32" where
  "fexp (Fin a) = Fin (exp a)"
| "fexp PInf = PInf"
| "fexp NInf = Fin 0"
| "fexp NaN = NaN"

fun flt :: "f32 \<Rightarrow> f32 \<Rightarrow> bool" where
  "flt (Fin a) (Fin b) = (a < b)"
| "flt NaN _ = False"
| "flt _ NaN = False"
| "flt NInf b = (b \<noteq> NInf)"
| "flt a PInf = (a \<noteq> PInf)"
| "flt _ _ = False"

definition fgt :: "f32 \<Rightarrow> f32 \<Rightarrow> bool" where
  "fgt a b = flt b a"

definition fne :: "f32 \<Rightarrow> f32 \<Rightarrow> bool" where
  \<comment> \<open>\<^verbatim>\<open>!=\<close>: true as soon as one side is NaN.\<close>
  "fne a b = (a = NaN \<or> b = NaN \<or> a \<noteq> b)"

section \<open>Vectors: \<^verbatim>\<open>ti.Vector\<close> of dimension 2\<close>

type_synonym vec2 = "f32 \<times> f32"

fun vadd :: "vec2 \<Rightarrow> vec2 \<Rightarrow> vec2" where
  "vadd (a, b) (c, d) = (fadd a c, fadd b d)"

fun vsub :: "vec2 \<Rightarrow> vec2 \<Rightarrow> vec2" where
  "vsub (a, b) (c, d) = (fsub a c, fsub b d)"

fun smul :: "f32 \<Rightarrow> vec2 \<Rightarrow> vec2" where
  \<comment> \<open>scalar \<^verbatim>\<open>*\<close> vector\<close>
  "smul c (a, b) = (fmul c a, fmul c b)"

fun vmuls :: "vec2 \<Rightarrow> f32 \<Rightarrow> vec2" where
  \<comment> \<open>vector \<^verbatim>\<open>*\<close> scalar\<close>
  "vmuls (a, b) c = (fmul a c, fmul b c)"

fun vdivs :: "vec2 \<Rightarrow> f32 \<Rightarrow> vec2" where
  \<comment> \<open>vector \<^verbatim>\<open>/\<close> scalar\<close>
  "vdivs (a, b) c = (fdiv a c, fdiv b c)"

fun dot :: "vec2 \<Rightarrow> vec2 \<Rightarrow> f32" where
  "dot (a, b) (c, d) = fadd (fmul a c) (fmul b d)"

definition vnorm :: "vec2 \<Rightarrow> f32" where
  \<comment> \<open>\<^verbatim>\<open>norm()\<close>: the square root of the sum of the squared components.\<close>
  "vnorm p = fsqrt (dot p p)"

definition normalized :: "vec2 \<Rightarrow> vec2" where
  \<comment> \<open>\<^verbatim>\<open>normalized()\<close> as Taichi computes it: the inverse of the norm, times the vector.
      Nothing guards a zero norm.\<close>
  "normalized p = smul (fdiv (Fin 1) (vnorm p)) p"

fun coord :: "vec2 \<Rightarrow> nat \<Rightarrow> f32" where
  \<comment> \<open>\<^verbatim>\<open>p[d]\<close> for the axis \<open>d\<close>, 0 or 1\<close>
  "coord (a, b) d = (if d = 0 then a else b)"

fun set_coord :: "vec2 \<Rightarrow> nat \<Rightarrow> f32 \<Rightarrow> vec2" where
  \<comment> \<open>\<^verbatim>\<open>p[d] = c\<close>\<close>
  "set_coord (a, b) d c = (if d = 0 then (c, b) else (a, c))"

section \<open>The fields and constants of the program\<close>

definition max_num_particles :: nat where
  "max_num_particles = 1024"

definition particle_mass :: f32 where
  "particle_mass = Fin 1"

definition dt :: f32 where
  "dt = Fin 0.001"

definition substeps :: f32 where
  "substeps = Fin 10"

text \<open>
  One record holds the Taichi fields. A field of shape \<open>max_num_particles\<close> is a function
  of the index; the slots at \<open>max_num_particles\<close> and beyond do not exist in the program
  (Taichi does not check the index in this configuration), so the theorems about stored
  values speak of indices below the particle count of a scene within its capacity.
  \<open>num_particles\<close>, \<open>paused\<close> and \<open>fixed\<close> are 32-bit integers.
\<close>

record scene =
  x :: "nat \<Rightarrow> vec2"
  v :: "nat \<Rightarrow> vec2"
  f :: "nat \<Rightarrow> vec2"
  fixed :: "nat \<Rightarrow> i32"
  spring_Y :: f32
  paused :: i32
  num_particles :: i32
  rest_length :: "nat \<Rightarrow> nat \<Rightarrow> f32"
  drag_damping :: f32
  dashpot_damping :: f32

definition range_i32 :: "i32 \<Rightarrow> nat list" where
  \<comment> \<open>\<^verbatim>\<open>range(n)\<close> for a signed 32-bit \<open>n\<close>: empty when \<open>n\<close> is negative\<close>
  "range_i32 n = [0..<nat (sint n)]"

section \<open>\<^verbatim>\<open>substep\<close>\<close>

definition spring_term :: "nat \<Rightarrow> nat \<Rightarrow> scene \<Rightarrow> scene" where
  \<comment> \<open>the body of the loop over \<open>j\<close>\<close>
  "spring_term i j s =
     (if fne (rest_length s i j) (Fin 0) then
        let x_ij = vsub (x s i) (x s j);
            d = normalized x_ij;
            s1 = s\<lparr>f := (f s)(i := vadd (f s i)
                   (smul (fmul (fneg (spring_Y s))
                               (fsub (fdiv (vnorm x_ij) (rest_length s i j)) (Fin 1))) d))\<rparr>;
            v_rel = dot (vsub (v s1 i) (v s1 j)) d
        in s1\<lparr>f := (f s1)(i := vadd (f s1 i) (smul (fmul (fneg (dashpot_damping s1)) v_rel) d))\<rparr>
      else s)"

definition compute_force_i :: "nat list \<Rightarrow> nat \<Rightarrow> scene \<Rightarrow> scene" where
  \<comment> \<open>the body of the first loop over \<open>i\<close>: gravity, then the scan of all \<open>j\<close>\<close>
  "compute_force_i js i s =
     fold (spring_term i) js (s\<lparr>f := (f s)(i := vmuls (Fin 0, Fin (- 9.8)) particle_mass)\<rparr>)"

definition compute_force :: "scene \<Rightarrow> scene" where
  "compute_force s =
     (let n = num_particles s in fold (compute_force_i (range_i32 n)) (range_i32 n) s)"

definition integrate :: "nat \<Rightarrow> scene \<Rightarrow> scene" where
  \<comment> \<open>the \<^verbatim>\<open>if not fixed[i]\<close> statement of the second loop\<close>
  "integrate i s =
     (if fixed s i = 0 then
        let s1 = s\<lparr>v := (v s)(i := vadd (v s i) (vdivs (smul dt (f s i)) particle_mass))\<rparr>;
            s2 = s1\<lparr>v := (v s1)(i := vmuls (v s1 i) (fexp (fmul (fneg dt) (drag_damping s1))))\<rparr>
        in s2\<lparr>x := (x s2)(i := vadd (x s2 i) (vmuls (v s2 i) dt))\<rparr>
      else s\<lparr>v := (v s)(i := (Fin 0, Fin 0))\<rparr>)"

definition collide :: "nat \<Rightarrow> nat \<Rightarrow> scene \<Rightarrow> scene" where
  \<comment> \<open>the two wall tests on axis \<open>d\<close>\<close>
  "collide i d s =
     (let s1 = (if flt (coord (x s i) d) (Fin 0)
                then s\<lparr>x := (x s)(i := set_coord (x s i) d (Fin 0)),
                       v := (v s)(i := set_coord (v s i) d (Fin 0))\<rparr>
                else s)
      in if fgt (coord (x s1 i) d) (Fin 1)
         then s1\<lparr>x := (x s1)(i := set_coord (x s1 i) d (Fin 1)),
                 v := (v s1)(i := set_coord (v s1 i) d (Fin 0))\<rparr>
         else s1)"

definition move_particle :: "nat \<Rightarrow> scene \<Rightarrow> scene" where
  \<comment> \<open>the body of the second loop over \<open>i\<close>\<close>
  "move_particle i s = collide i 1 (collide i 0 (integrate i s))"

definition substep :: "scene \<Rightarrow> scene" where
  "substep s =
     (let n = num_particles s in fold move_particle (range_i32 n) (compute_force s))"

section \<open>\<^verbatim>\<open>add_particle\<close>, \<^verbatim>\<open>attract\<close> and the clearing of the scene\<close>

definition connect :: "nat \<Rightarrow> nat \<Rightarrow> scene \<Rightarrow> scene" where
  \<comment> \<open>the body of the loop of \<^verbatim>\<open>add_particle\<close>\<close>
  "connect new_particle_id i s =
     (if flt (vnorm (vsub (x s new_particle_id) (x s i))) (Fin 0.15) then
        let s1 = s\<lparr>rest_length := (rest_length s)
                     (new_particle_id := (rest_length s new_particle_id)(i := Fin 0.1))\<rparr>
        in s1\<lparr>rest_length := (rest_length s1)
                 (i := (rest_length s1 i)(new_particle_id := Fin 0.1))\<rparr>
      else s)"

definition add_particle :: "f32 \<Rightarrow> f32 \<Rightarrow> i32 \<Rightarrow> scene \<Rightarrow> scene" where
  "add_particle pos_x pos_y fixed' s =
     (let new_particle_id = unat (num_particles s);
          s1 = s\<lparr>v := (v s)(new_particle_id := (Fin 0, Fin 0))\<rparr>;
          s2 = s1\<lparr>x := (x s1)(new_particle_id := (pos_x, pos_y))\<rparr>;
          s3 = s2\<lparr>fixed := (fixed s2)(new_particle_id := fixed')\<rparr>;
          s4 = fold (connect new_particle_id) (range_i32 (num_particles s3)) s3
      in s4\<lparr>num_particles := num_particles s4 + 1\<rparr>)"

definition attract_i :: "f32 \<Rightarrow> f32 \<Rightarrow> nat \<Rightarrow> scene \<Rightarrow> scene" where
  "attract_i pos_x pos_y i s =
     (let p = (pos_x, pos_y)
      in s\<lparr>v := (v s)(i := vadd (v s i)
               (vmuls (smul (fmul (fneg dt) substeps) (vsub (x s i) p)) (Fin 100)))\<rparr>)"

definition attract :: "f32 \<Rightarrow> f32 \<Rightarrow> scene \<Rightarrow> scene" where
  "attract pos_x pos_y s = fold (attract_i pos_x pos_y) (range_i32 (num_particles s)) s"

definition clear_scene :: "scene \<Rightarrow> scene" where
  \<comment> \<open>the branch of \<^verbatim>\<open>main\<close> for the key \<^verbatim>\<open>c\<close>\<close>
  "clear_scene s = s\<lparr>num_particles := 0, rest_length := (\<lambda>_ _. Fin 0)\<rparr>"

definition init_scene :: scene where
  \<comment> \<open>the fields as Taichi allocates them, filled with zeros\<close>
  "init_scene =
     \<lparr>x = (\<lambda>_. (Fin 0, Fin 0)), v = (\<lambda>_. (Fin 0, Fin 0)), f = (\<lambda>_. (Fin 0, Fin 0)),
      fixed = (\<lambda>_. 0), spring_Y = Fin 0, paused = 0, num_particles = 0,
      rest_length = (\<lambda>_ _. Fin 0), drag_damping = Fin 0, dashpot_damping = Fin 0\<rparr>"

definition main_scene :: scene where
  \<comment> \<open>the scene after the three assignments at the start of \<^verbatim>\<open>main\<close>\<close>
  "main_scene = init_scene\<lparr>spring_Y := Fin 1000, drag_damping := Fin 1, dashpot_damping := Fin 100\<rparr>"

section \<open>The quantities the specification names\<close>

text \<open>
  The specification describes a substep particle by particle. The definitions of this
  section follow its words; the theorems below compare them with the loops above.
\<close>

definition count :: "scene \<Rightarrow> nat" where
  \<comment> \<open>the number of particles the loops run over\<close>
  "count s = nat (sint (num_particles s))"

fun vsum :: "vec2 list \<Rightarrow> vec2" where
  "vsum [] = (Fin 0, Fin 0)"
| "vsum (p # ps) = vadd p (vsum ps)"

definition gravity :: vec2 where
  "gravity = vmuls (Fin 0, Fin (- 9.8)) particle_mass"

definition connected :: "scene \<Rightarrow> nat \<Rightarrow> nat \<Rightarrow> bool" where
  "connected s i j = fne (rest_length s i j) (Fin 0)"

definition hooke :: "scene \<Rightarrow> nat \<Rightarrow> nat \<Rightarrow> vec2" where
  \<comment> \<open>\<open>-springStiffness * (|pos[i]-pos[j]| / restLength(i,j) - 1) * dir\<close>\<close>
  "hooke s i j =
     (let x_ij = vsub (x s i) (x s j)
      in smul (fmul (fneg (spring_Y s)) (fsub (fdiv (vnorm x_ij) (rest_length s i j)) (Fin 1)))
              (normalized x_ij))"

definition dashpot :: "scene \<Rightarrow> nat \<Rightarrow> nat \<Rightarrow> vec2" where
  \<comment> \<open>\<open>-dashpotDamping * dot(vel[i]-vel[j], dir) * dir\<close>\<close>
  "dashpot s i j =
     (let d = normalized (vsub (x s i) (x s j))
      in smul (fmul (fneg (dashpot_damping s)) (dot (vsub (v s i) (v s j)) d)) d)"

definition springs_of :: "scene \<Rightarrow> nat \<Rightarrow> nat list \<Rightarrow> vec2 list" where
  \<comment> \<open>the two terms of every spring that particle \<open>i\<close> finds among \<open>js\<close>\<close>
  "springs_of s i js = map (\<lambda>j. vadd (hooke s i j) (dashpot s i j)) (filter (connected s i) js)"

definition force_on :: "scene \<Rightarrow> nat list \<Rightarrow> nat \<Rightarrow> vec2" where
  "force_on s js i = vadd gravity (vsum (springs_of s i js))"

definition net_force :: "scene \<Rightarrow> nat \<Rightarrow> vec2" where
  \<comment> \<open>gravity plus the terms of the springs of \<open>i\<close> to the particles in \<open>[0, n)\<close>\<close>
  "net_force s i = force_on s (range_i32 (num_particles s)) i"

definition integrated :: "scene \<Rightarrow> nat \<Rightarrow> vec2 \<times> vec2" where
  \<comment> \<open>position and velocity of particle \<open>i\<close> after the integration, before the walls\<close>
  "integrated s i =
     (if fixed s i = 0 then
        let v1 = vadd (v s i) (vdivs (smul dt (f s i)) particle_mass);
            v2 = vmuls v1 (fexp (fmul (fneg dt) (drag_damping s)))
        in (vadd (x s i) (vmuls v2 dt), v2)
      else (x s i, (Fin 0, Fin 0)))"

fun clamp_axis :: "f32 \<times> f32 \<Rightarrow> f32 \<times> f32" where
  \<comment> \<open>the wall rule on one axis, for a coordinate and the velocity component on it\<close>
  "clamp_axis (c, w) =
     (if flt c (Fin 0) then (Fin 0, Fin 0)
      else if fgt c (Fin 1) then (Fin 1, Fin 0)
      else (c, w))"

fun clamp :: "vec2 \<times> vec2 \<Rightarrow> vec2 \<times> vec2" where
  "clamp ((c0, c1), (w0, w1)) =
     ((fst (clamp_axis (c0, w0)), fst (clamp_axis (c1, w1))),
      (snd (clamp_axis (c0, w0)), snd (clamp_axis (c1, w1))))"

definition moved :: "scene \<Rightarrow> nat \<Rightarrow> vec2 \<times> vec2" where
  "moved s i = clamp (integrated s i)"

fun in_unit :: "f32 \<Rightarrow> bool" where
  \<comment> \<open>a coordinate in \<open>[0, 1]\<close>\<close>
  "in_unit (Fin r) = (0 \<le> r \<and> r \<le> 1)"
| "in_unit _ = False"

fun inside :: "vec2 \<Rightarrow> bool" where
  \<comment> \<open>no wall test fires on the position\<close>
  "inside (a, b) =
     (\<not> flt a (Fin 0) \<and> \<not> fgt a (Fin 1) \<and> \<not> flt b (Fin 0) \<and> \<not> fgt b (Fin 1))"

definition clamp_pos :: "vec2 \<Rightarrow> vec2" where
  \<comment> \<open>the position the wall rule leaves\<close>
  "clamp_pos p = fst (clamp (p, (Fin 0, Fin 0)))"

definition attraction_gain :: f32 where
  "attraction_gain = Fin 100"

definition nudge :: "vec2 \<Rightarrow> vec2 \<Rightarrow> vec2" where
  \<comment> \<open>\<open>-(dt * substeps * attractionGain) * (position - point)\<close>\<close>
  "nudge q p = smul (fneg (fmul (fmul dt substeps) attraction_gain)) (vsub q p)"

section \<open>The scenes the program runs through\<close>

text \<open>
  \<^verbatim>\<open>main\<close> starts from the fields filled with zeros, sets the three parameters and then,
  frame after frame, reacts to the events (a left click adds a particle, the space bar
  toggles \<open>paused\<close>, \<^verbatim>\<open>c\<close> clears the scene, \<^verbatim>\<open>y\<close>, \<^verbatim>\<open>d\<close> and \<^verbatim>\<open>x\<close> scale a parameter),
  runs the substeps unless paused and calls \<^verbatim>\<open>attract\<close> while the right button is down.
  \<open>reachable\<close> holds of every scene this can produce while every left click finds the
  particle count below \<open>max_num_particles\<close>: a call of \<^verbatim>\<open>add_particle\<close> on a full scene
  indexes the fields outside their shape, and what the program does from there on is not
  described. The rule for the three parameters allows any new values.
\<close>

fun add_all :: "(f32 \<times> f32 \<times> i32) list \<Rightarrow> scene \<Rightarrow> scene" where
  \<comment> \<open>one call of \<^verbatim>\<open>add_particle\<close> for every left click of a list\<close>
  "add_all [] s = s"
| "add_all ((pos_x, pos_y, fixed') # clicks) s = add_all clicks (add_particle pos_x pos_y fixed' s)"


section \<open>Concrete scenes\<close>

definition scenario :: scene where
  \<comment> \<open>a pinned particle, a free one 0.09 above it (hence a spring), a free one far away\<close>
  "scenario =
     add_particle (Fin 0.6) (Fin 0.6) 0
       (add_particle (Fin 0.3) (Fin 0.39) 0
          (add_particle (Fin 0.3) (Fin 0.3) 1 main_scene))"

definition outside_pin :: scene where
  \<comment> \<open>one pinned particle left of the box\<close>
  "outside_pin = add_particle (Fin (- 0.5)) (Fin 0.5) 1 main_scene"

definition coincident :: scene where
  \<comment> \<open>two free particles added at the same place\<close>
  "coincident = add_particle (Fin 0.5) (Fin 0.5) 0 (add_particle (Fin 0.5) (Fin 0.5) 0 main_scene)"

definition stacked :: scene where
  \<comment> \<open>a free particle added on top of a pinned one\<close>
  "stacked = add_particle (Fin 0.5) (Fin 0.5) 0 (add_particle (Fin 0.5) (Fin 0.5) 1 main_scene)"

definition floor_scene :: scene where
  \<comment> \<open>one free particle lying on the bottom wall\<close>
  "floor_scene = add_particle (Fin 0.5) (Fin 0) 0 main_scene"

definition pin_paused :: scene where
  \<comment> \<open>one pinned particle in the middle of the box, the simulation paused\<close>
  "pin_paused = add_particle (Fin 0.5) (Fin 0.5) 1 (main_scene\<lparr>paused := 1\<rparr>)"

definition full_scene :: scene where
  \<comment> \<open>\<open>max_num_particles\<close> free particles, all added at the centre of the box\<close>
  "full_scene = add_all (replicate max_num_particles (Fin 0.5, Fin 0.5, 0)) main_scene"

section \<open>Arithmetic of the scalars\<close>

lemma fadd_NaN_right [simp]: "fadd a NaN = NaN"
  by (cases a) simp_all

lemma fmul_NaN_right [simp]: "fmul a NaN = NaN"
  by (cases a) simp_all

lemma fdiv_NaN_right [simp]: "fdiv a NaN = NaN"
  by (cases a) simp_all

lemma flt_NaN_right [simp]: "flt a NaN = False"
  by (cases a) simp_all

lemma fadd_zero_right [simp]: "fadd a (Fin 0) = a"
  by (cases a) simp_all

lemma fadd_zero_left [simp]: "fadd (Fin 0) a = a"
  by (cases a) simp_all

lemma fadd_assoc: "fadd (fadd a b) c = fadd a (fadd b c)"
  by (cases a; cases b; cases c) simp_all

lemma vadd_assoc: "vadd (vadd p q) r = vadd p (vadd q r)"
  by (cases p; cases q; cases r) (simp add: fadd_assoc)

lemma vadd_zero_right [simp]: "vadd p (Fin 0, Fin 0) = p"
  by (cases p) simp

section \<open>The loops of \<^verbatim>\<open>substep\<close> in closed form\<close>

lemma connected_f [simp]: "connected (s\<lparr>f := g\<rparr>) = connected s"
  by (simp add: fun_eq_iff connected_def)

lemma hooke_f [simp]: "hooke (s\<lparr>f := g\<rparr>) = hooke s"
  by (simp add: fun_eq_iff hooke_def)

lemma dashpot_f [simp]: "dashpot (s\<lparr>f := g\<rparr>) = dashpot s"
  by (simp add: fun_eq_iff dashpot_def)

lemma springs_of_f [simp]: "springs_of (s\<lparr>f := g\<rparr>) i js = springs_of s i js"
  by (simp add: springs_of_def)

lemma force_on_f [simp]: "force_on (s\<lparr>f := g\<rparr>) js i = force_on s js i"
  by (simp add: force_on_def)

lemma springs_of_Cons:
  "springs_of s i (j # js) =
     (if connected s i j then vadd (hooke s i j) (dashpot s i j) # springs_of s i js
      else springs_of s i js)"
  by (simp add: springs_of_def)

lemma spring_term_eq:
  "spring_term i j s =
     (if connected s i j
      then s\<lparr>f := (f s)(i := vadd (f s i) (vadd (hooke s i j) (dashpot s i j)))\<rparr>
      else s)"
  by (simp add: spring_term_def connected_def hooke_def dashpot_def Let_def vadd_assoc)

lemma fold_spring_term:
  "fold (spring_term i) js s = s\<lparr>f := (f s)(i := vadd (f s i) (vsum (springs_of s i js)))\<rparr>"
proof (induction js arbitrary: s)
  case Nil
  show ?case by (simp add: springs_of_def)
next
  case (Cons j js)
  have "fold (spring_term i) (j # js) s = fold (spring_term i) js (spring_term i j s)"
    by simp
  also have "\<dots> = (spring_term i j s)\<lparr>f := (f (spring_term i j s))
      (i := vadd (f (spring_term i j s) i) (vsum (springs_of (spring_term i j s) i js)))\<rparr>"
    by (rule Cons.IH)
  also have "\<dots> = s\<lparr>f := (f s)(i := vadd (f s i) (vsum (springs_of s i (j # js))))\<rparr>"
    by (simp add: spring_term_eq springs_of_Cons vadd_assoc)
  finally show ?case .
qed

lemma compute_force_i_eq:
  "compute_force_i js i s = s\<lparr>f := (f s)(i := force_on s js i)\<rparr>"
  by (simp add: compute_force_i_def fold_spring_term force_on_def gravity_def)

lemma fold_compute_force_i:
  "fold (compute_force_i js) ks s =
     s\<lparr>f := (\<lambda>k. if k \<in> set ks then force_on s js k else f s k)\<rparr>"
proof (induction ks arbitrary: s)
  case Nil
  show ?case by simp
next
  case (Cons k ks)
  have "fold (compute_force_i js) (k # ks) s = fold (compute_force_i js) ks (compute_force_i js k s)"
    by simp
  also have "\<dots> = (compute_force_i js k s)\<lparr>f := (\<lambda>m. if m \<in> set ks
      then force_on (compute_force_i js k s) js m else f (compute_force_i js k s) m)\<rparr>"
    by (rule Cons.IH)
  also have "\<dots> = s\<lparr>f := (\<lambda>m. if m \<in> set (k # ks) then force_on s js m else f s m)\<rparr>"
    by (simp add: compute_force_i_eq fun_eq_iff)
  finally show ?case .
qed

lemma compute_force_eq:
  "compute_force s = s\<lparr>f := (\<lambda>k. if k < count s then net_force s k else f s k)\<rparr>"
  by (simp add: compute_force_def fold_compute_force_i range_i32_def net_force_def count_def Let_def
      cong: if_cong)

lemma integrate_eq:
  "integrate i s =
     s\<lparr>x := (x s)(i := fst (integrated s i)), v := (v s)(i := snd (integrated s i))\<rparr>"
  by (simp add: integrate_def integrated_def Let_def)

lemma collide_collide:
  "collide i 1 (collide i 0 s) =
     s\<lparr>x := (x s)(i := fst (clamp (x s i, v s i))), v := (v s)(i := snd (clamp (x s i, v s i)))\<rparr>"
  by (cases "x s i"; cases "v s i") (simp add: collide_def Let_def fgt_def fun_upd_idem)

lemma move_particle_eq:
  "move_particle i s = s\<lparr>x := (x s)(i := fst (moved s i)), v := (v s)(i := snd (moved s i))\<rparr>"
  unfolding move_particle_def collide_collide integrate_eq moved_def by simp

lemma moved_other:
  "k \<noteq> i \<Longrightarrow> moved (s\<lparr>x := (x s)(i := p), v := (v s)(i := q)\<rparr>) k = moved s k"
  by (simp add: moved_def integrated_def)

lemma fold_move_particle:
  "distinct ks \<Longrightarrow>
   fold move_particle ks s =
     s\<lparr>x := (\<lambda>k. if k \<in> set ks then fst (moved s k) else x s k),
       v := (\<lambda>k. if k \<in> set ks then snd (moved s k) else v s k)\<rparr>"
proof (induction ks arbitrary: s)
  case Nil
  show ?case by simp
next
  case (Cons k ks)
  let ?t = "move_particle k s"
  have "fold move_particle (k # ks) s = fold move_particle ks ?t"
    by simp
  also have "\<dots> = ?t\<lparr>x := (\<lambda>m. if m \<in> set ks then fst (moved ?t m) else x ?t m),
       v := (\<lambda>m. if m \<in> set ks then snd (moved ?t m) else v ?t m)\<rparr>"
    using Cons.prems by (intro Cons.IH) simp
  also have "\<dots> = s\<lparr>x := (\<lambda>m. if m \<in> set (k # ks) then fst (moved s m) else x s m),
       v := (\<lambda>m. if m \<in> set (k # ks) then snd (moved s m) else v s m)\<rparr>"
  proof -
    have same: "moved ?t m = moved s m" if "m \<in> set ks" for m
    proof -
      from that Cons.prems have "m \<noteq> k" by auto
      then show ?thesis by (simp add: move_particle_eq moved_other)
    qed
    have "(\<lambda>m. if m \<in> set ks then fst (moved ?t m) else x ?t m) =
          (\<lambda>m. if m \<in> set (k # ks) then fst (moved s m) else x s m)"
      by (auto simp add: fun_eq_iff same) (simp_all add: move_particle_eq)
    moreover have "(\<lambda>m. if m \<in> set ks then snd (moved ?t m) else v ?t m) =
          (\<lambda>m. if m \<in> set (k # ks) then snd (moved s m) else v s m)"
      by (auto simp add: fun_eq_iff same) (simp_all add: move_particle_eq)
    ultimately show ?thesis
      by (simp add: move_particle_eq)
  qed
  finally show ?case .
qed

lemma substep_eq:
  "substep s =
     s\<lparr>f := (\<lambda>k. if k < count s then net_force s k else f s k),
       x := (\<lambda>k. if k < count s then fst (moved (compute_force s) k) else x s k),
       v := (\<lambda>k. if k < count s then snd (moved (compute_force s) k) else v s k)\<rparr>"
  by (simp add: substep_def Let_def range_i32_def fold_move_particle count_def)
     (simp add: compute_force_eq count_def cong: if_cong)

section \<open>The scene \<open>scenario\<close>, evaluated\<close>

lemma sqrt_81: "sqrt (81 / 10000) = 9 / 100"
  by (rule real_sqrt_unique) (simp_all add: power2_eq_square)

lemma sqrt_ge: "b\<^sup>2 \<le> a \<Longrightarrow> 0 \<le> b \<Longrightarrow> \<not> sqrt a < b"
  by (simp add: not_less real_le_rsqrt)

lemma far_0: "\<not> sqrt (9 / 50) * 20 < 3"
  using sqrt_ge [of "3/20" "9/50"] by (simp add: power2_eq_square)

lemma far_1: "\<not> sqrt (1341 / 10000) * 20 < 3"
  using sqrt_ge [of "3/20" "1341/10000"] by (simp add: power2_eq_square)

lemma range_3: "range_i32 3 = [0, 1, 2]"
  by (simp add: range_i32_def upt_rec)

lemma scenario_eq:
  "scenario = main_scene\<lparr>
     x := (\<lambda>_. (Fin 0, Fin 0))(0 := (Fin 0.3, Fin 0.3), 1 := (Fin 0.3, Fin 0.39), 2 := (Fin 0.6, Fin 0.6)),
     fixed := (\<lambda>_. 0)(0 := 1),
     num_particles := 3,
     rest_length := (\<lambda>_ _. Fin 0)(0 := (\<lambda>_. Fin 0)(1 := Fin 0.1), 1 := (\<lambda>_. Fin 0)(0 := Fin 0.1))\<rparr>"
  by (simp add: scenario_def add_particle_def main_scene_def init_scene_def Let_def range_i32_def
      connect_def vnorm_def fsub_def upt_rec sqrt_81 far_0 far_1 fun_upd_twist)
     (auto simp add: fun_eq_iff)

lemma count_scenario: "count scenario = 3"
  by (simp add: scenario_eq count_def)

lemma net2: "net_force scenario 2 = (Fin 0, Fin (- 9.8))"
  by (simp add: scenario_eq net_force_def force_on_def springs_of_def connected_def fne_def
      range_3 gravity_def particle_mass_def main_scene_def init_scene_def)

lemma net1: "net_force scenario 1 = (Fin 0, Fin 90.2)"
  by (simp add: scenario_eq net_force_def force_on_def springs_of_def connected_def fne_def
      range_3 gravity_def particle_mass_def main_scene_def init_scene_def hooke_def dashpot_def
      vnorm_def normalized_def fsub_def sqrt_81 Let_def)

lemma exp_bounds: "0 < exp (- (1 / 1000) :: real)" "exp (- (1 / 1000) :: real) \<le> 1"
  by simp_all

section \<open>Pinned particles, walls and coincident particles\<close>

lemma substep_count [simp]: "count (substep s) = count s"
  by (simp add: substep_eq count_def)

lemma substep_fixed [simp]: "fixed (substep s) = fixed s"
  by (simp add: substep_eq)

lemma compute_force_x [simp]: "x (compute_force s) = x s"
  by (simp add: compute_force_eq)

lemma compute_force_v [simp]: "v (compute_force s) = v s"
  by (simp add: compute_force_eq)

lemma compute_force_fixed [simp]: "fixed (compute_force s) = fixed s"
  by (simp add: compute_force_eq)

lemma compute_force_drag [simp]: "drag_damping (compute_force s) = drag_damping s"
  by (simp add: compute_force_eq)

lemma substep_x: "i < count s \<Longrightarrow> x (substep s) i = fst (moved (compute_force s) i)"
  by (simp add: substep_eq)

lemma substep_v: "i < count s \<Longrightarrow> v (substep s) i = snd (moved (compute_force s) i)"
  by (simp add: substep_eq)

lemma clamp_pinned: "clamp (p, (Fin 0, Fin 0)) = (clamp_pos p, (Fin 0, Fin 0))"
  by (cases p) (simp add: clamp_pos_def)

lemma clamp_pos_inside: "inside p \<Longrightarrow> clamp_pos p = p"
  by (cases p) (simp add: clamp_pos_def)

lemma pinned_substep:
  assumes "i < count s" and "fixed s i \<noteq> 0"
  shows "x (substep s) i = clamp_pos (x s i)" and "v (substep s) i = (Fin 0, Fin 0)"
  using assms by (simp_all add: substep_x substep_v moved_def integrated_def clamp_pinned)

lemma pinned_substeps:
  assumes "i < count s" and "fixed s i \<noteq> 0" and "inside (x s i)"
  shows "x ((substep ^^ k) s) i = x s i \<and> count ((substep ^^ k) s) = count s \<and>
         fixed ((substep ^^ k) s) = fixed s"
proof (induction k)
  case 0
  show ?case by simp
next
  case (Suc k)
  let ?t = "(substep ^^ k) s"
  from Suc assms have "i < count ?t" "fixed ?t i \<noteq> 0" "inside (x ?t i)" by simp_all
  then have "x (substep ?t) i = x ?t i"
    by (simp add: pinned_substep clamp_pos_inside)
  with Suc show ?case by simp
qed

lemma scene_simps:
  "range_i32 1 = [0]" "range_i32 2 = [0, 1]"
  by (simp_all add: range_i32_def upt_rec)

lemma outside_pin_eq:
  "outside_pin = main_scene\<lparr>x := (\<lambda>_. (Fin 0, Fin 0))(0 := (Fin (- 0.5), Fin 0.5)),
      fixed := (\<lambda>_. 0)(0 := 1), num_particles := 1\<rparr>"
  by (simp add: outside_pin_def add_particle_def main_scene_def init_scene_def Let_def range_i32_def)
     (auto simp add: fun_eq_iff)

lemma clamp_axis_cases:
  "clamp_axis (c, w) = (c', w') \<Longrightarrow>
     (c \<noteq> NaN \<longrightarrow> in_unit c') \<and> (c = NaN \<longrightarrow> c' = NaN) \<and>
     (flt c (Fin 0) \<longrightarrow> c' = Fin 0 \<and> w' = Fin 0) \<and>
     (fgt c (Fin 1) \<longrightarrow> c' = Fin 1 \<and> w' = Fin 0)"
  by (cases c) (auto simp add: fgt_def split: if_splits)

lemma clamp_coord:
  "(coord (fst (clamp (p, w))) d, coord (snd (clamp (p, w))) d) = clamp_axis (coord p d, coord w d)"
  by (cases p; cases w) simp

lemma floor_scene_eq:
  "floor_scene = main_scene\<lparr>x := (\<lambda>_. (Fin 0, Fin 0))(0 := (Fin 0.5, Fin 0)), num_particles := 1\<rparr>"
  by (simp add: floor_scene_def add_particle_def main_scene_def init_scene_def Let_def range_i32_def)
     (auto simp add: fun_eq_iff)

lemma floor_net: "net_force floor_scene 0 = (Fin 0, Fin (- 9.8))"
  by (simp add: floor_scene_eq net_force_def force_on_def springs_of_def connected_def fne_def
      scene_simps gravity_def particle_mass_def main_scene_def init_scene_def)

lemma floor_integrated:
  "integrated (compute_force floor_scene) 0 =
     ((Fin 0.5, Fin (- 0.0098 * exp (- 0.001) * 0.001)), (Fin 0, Fin (- 0.0098 * exp (- 0.001))))"
  by (simp add: integrated_def compute_force_eq floor_net Let_def)
     (simp add: floor_scene_eq count_def main_scene_def init_scene_def dt_def particle_mass_def)

lemma coincident_eq:
  "coincident = main_scene\<lparr>x := (\<lambda>_. (Fin 0, Fin 0))(0 := (Fin 0.5, Fin 0.5), 1 := (Fin 0.5, Fin 0.5)),
     num_particles := 2,
     rest_length := (\<lambda>_ _. Fin 0)(0 := (\<lambda>_. Fin 0)(1 := Fin 0.1), 1 := (\<lambda>_. Fin 0)(0 := Fin 0.1))\<rparr>"
  by (simp add: coincident_def add_particle_def main_scene_def init_scene_def Let_def range_i32_def
      connect_def vnorm_def fsub_def upt_rec fun_upd_twist)
     (auto simp add: fun_eq_iff)

lemma vadd_NaN_right [simp]: "vadd p (NaN, NaN) = (NaN, NaN)"
  by (cases p) simp

lemma vadd_NaN_left [simp]: "vadd (NaN, NaN) p = (NaN, NaN)"
  by (cases p) simp

lemma smul_NaN [simp]: "smul c (NaN, NaN) = (NaN, NaN)"
  by simp

lemma vsum_NaN: "(NaN, NaN) \<in> set ps \<Longrightarrow> vsum ps = (NaN, NaN)"
  by (induction ps) auto

lemma fsub_self: "fsub a a = Fin 0 \<or> fsub a a = NaN"
  by (cases a) (simp_all add: fsub_def)

lemma normalized_zero: "normalized (vsub p p) = (NaN, NaN)"
proof (cases p)
  case (Pair a b)
  from fsub_self [of a] fsub_self [of b] show ?thesis
    by (auto simp add: Pair normalized_def vnorm_def signed_inf_def)
qed

lemma net_force_NaN:
  assumes "j < count s" and "connected s i j" and "x s i = x s j"
  shows "net_force s i = (NaN, NaN)"
proof -
  have "vadd (hooke s i j) (dashpot s i j) = (NaN, NaN)"
    using assms(3) by (simp add: hooke_def dashpot_def normalized_zero Let_def)
  moreover have "j \<in> set (filter (connected s i) (range_i32 (num_particles s)))"
    using assms by (simp add: range_i32_def count_def)
  ultimately have "(NaN, NaN) \<in> set (springs_of s i (range_i32 (num_particles s)))"
    unfolding springs_of_def by (metis (no_types, lifting) image_eqI set_map)
  then show ?thesis
    by (simp add: net_force_def force_on_def vsum_NaN)
qed

lemma stacked_eq:
  "stacked = main_scene\<lparr>x := (\<lambda>_. (Fin 0, Fin 0))(0 := (Fin 0.5, Fin 0.5), 1 := (Fin 0.5, Fin 0.5)),
     fixed := (\<lambda>_. 0)(0 := 1),
     num_particles := 2,
     rest_length := (\<lambda>_ _. Fin 0)(0 := (\<lambda>_. Fin 0)(1 := Fin 0.1), 1 := (\<lambda>_. Fin 0)(0 := Fin 0.1))\<rparr>"
  by (simp add: stacked_def add_particle_def main_scene_def init_scene_def Let_def range_i32_def
      connect_def vnorm_def fsub_def upt_rec fun_upd_twist)
     (auto simp add: fun_eq_iff)

lemma coincident_substep:
  assumes "i < count s" and "j < count s" and "connected s i j" and "x s i = x s j"
  shows "f (substep s) i = (NaN, NaN)"
    and "fixed s i = 0 \<Longrightarrow> v (substep s) i = (NaN, NaN) \<and> x (substep s) i = (NaN, NaN)"
proof -
  have n: "net_force s i = (NaN, NaN)"
    using assms by (rule_tac net_force_NaN)
  have "integrated (compute_force s) i = ((NaN, NaN), (NaN, NaN))" if "fixed s i = 0"
    using that assms(1)
    by (cases "x s i"; cases "v s i") (simp add: integrated_def compute_force_eq n Let_def)
  then show "f (substep s) i = (NaN, NaN)"
    and "fixed s i = 0 \<Longrightarrow> v (substep s) i = (NaN, NaN) \<and> x (substep s) i = (NaN, NaN)"
    using assms by (simp_all add: substep_eq moved_def n fgt_def)
qed

section \<open>The loop of \<^verbatim>\<open>attract\<close> in closed form\<close>

lemma gain_scalar:
  "fmul (fmul (fmul (fneg dt) substeps) a) (Fin 100) =
   fmul (fneg (fmul (fmul dt substeps) attraction_gain)) a"
  by (cases a) (simp_all add: dt_def substeps_def attraction_gain_def signed_inf_def)

lemma gain_vector:
  "vmuls (smul (fmul (fneg dt) substeps) q) (Fin 100) =
   smul (fneg (fmul (fmul dt substeps) attraction_gain)) q"
  by (cases q) (simp add: gain_scalar)

lemma attract_i_eq:
  "attract_i px py i s = s\<lparr>v := (v s)(i := vadd (v s i) (nudge (x s i) (px, py)))\<rparr>"
  by (simp add: attract_i_def nudge_def gain_vector)

lemma fold_attract_i:
  "distinct ks \<Longrightarrow>
   fold (attract_i px py) ks s =
     s\<lparr>v := (\<lambda>k. if k \<in> set ks then vadd (v s k) (nudge (x s k) (px, py)) else v s k)\<rparr>"
proof (induction ks arbitrary: s)
  case Nil
  show ?case by simp
next
  case (Cons k ks)
  let ?s1 = "attract_i px py k s"
  have d: "distinct ks" and nk: "k \<notin> set ks" using Cons.prems by simp_all
  have "fold (attract_i px py) (k # ks) s = fold (attract_i px py) ks ?s1" by simp
  also have "\<dots> = ?s1\<lparr>v := (\<lambda>m. if m \<in> set ks then vadd (v ?s1 m) (nudge (x ?s1 m) (px, py))
                                 else v ?s1 m)\<rparr>"
    using d by (rule Cons.IH)
  also have "\<dots> = s\<lparr>v := (\<lambda>m. if m \<in> set (k # ks) then vadd (v s m) (nudge (x s m) (px, py))
                                 else v s m)\<rparr>"
    using nk by (auto simp add: attract_i_eq fun_eq_iff)
  finally show ?case .
qed

lemma attract_eq:
  "attract px py s =
     s\<lparr>v := (\<lambda>k. if k < count s then vadd (v s k) (nudge (x s k) (px, py)) else v s k)\<rparr>"
  by (simp add: attract_def fold_attract_i range_i32_def count_def)

lemma vadd_zero_left [simp]: "vadd (Fin 0, Fin 0) p = p"
  by (cases p) simp

lemma attract_count [simp]: "count (attract px py s) = count s"
  by (simp add: attract_eq count_def)

lemma attract_fixed: "fixed (attract px py s) = fixed s"
  by (simp add: attract_eq)

lemma pin_paused_eq:
  "pin_paused = main_scene\<lparr>paused := 1, x := (x main_scene)(0 := (Fin 0.5, Fin 0.5)),
       v := (v main_scene)(0 := (Fin 0, Fin 0)), fixed := (fixed main_scene)(0 := 1),
       num_particles := 1\<rparr>"
  by (simp add: pin_paused_def add_particle_def main_scene_def init_scene_def range_i32_def)


section \<open>\<^verbatim>\<open>add_particle\<close>: the particle count\<close>

lemma small_uint:
  fixes n :: i32
  assumes "unat n \<le> 1025"
  shows "uint n \<le> 1025"
proof -
  have "int (unat n) \<le> int 1025" using assms by (simp only: of_nat_le_iff)
  then show ?thesis by (simp only: of_nat_unat of_nat_numeral)
qed

lemma small_sint:
  fixes n :: i32
  assumes "uint n \<le> 1025"
  shows "sint n = uint n"
proof -
  have a: "uint n < 2 ^ 31" using assms by simp
  have b: "- (2 ^ 31) \<le> uint n" by (rule order_trans [of _ 0]) simp_all
  have "signed_take_bit 31 (uint n) = uint n"
    using b a by (rule signed_take_bit_int_eq_self)
  then show ?thesis by (simp add: sint_uint)
qed


lemma small_succ:
  fixes n :: i32
  assumes "unat n \<le> 1025"
  shows "unat (n + 1) = unat n + 1"
proof -
  have "unat (n + 1) = (unat n + 1) mod 2 ^ 32" by (simp add: unat_word_ariths)
  also have "\<dots> = unat n + 1" using assms by simp
  finally show ?thesis .
qed

lemma count_small: "unat (num_particles s) \<le> 1025 \<Longrightarrow> count s = unat (num_particles s)"
  by (simp add: count_def small_sint small_uint)


lemma connect_fields [simp]:
  "num_particles (connect n i s) = num_particles s"
  "x (connect n i s) = x s" "v (connect n i s) = v s" "fixed (connect n i s) = fixed s"
  by (simp_all add: connect_def Let_def)

lemma fold_connect_fields [simp]:
  "num_particles (fold (connect n) ks s) = num_particles s"
  "x (fold (connect n) ks s) = x s" "v (fold (connect n) ks s) = v s"
  "fixed (fold (connect n) ks s) = fixed s"
  by (induction ks arbitrary: s) simp_all

lemma add_particle_num: "num_particles (add_particle px py fx s) = num_particles s + 1"
  by (simp add: add_particle_def Let_def)

lemma add_particle_slot:
  "x (add_particle px py fx s) = (x s)(unat (num_particles s) := (px, py))"
  "v (add_particle px py fx s) = (v s)(unat (num_particles s) := (Fin 0, Fin 0))"
  "fixed (add_particle px py fx s) = (fixed s)(unat (num_particles s) := fx)"
  by (simp_all add: add_particle_def Let_def)

lemma count_after_add:
  assumes "unat (num_particles s) \<le> 1024"
  shows "count (add_particle px py fx s) = count s + 1"
proof -
  have a: "unat (num_particles s) \<le> 1025" using assms by simp
  have b: "unat (num_particles (add_particle px py fx s)) = unat (num_particles s) + 1"
    using a by (simp add: add_particle_num small_succ)
  then have "unat (num_particles (add_particle px py fx s)) \<le> 1025" using assms by simp
  then have "count (add_particle px py fx s) = unat (num_particles (add_particle px py fx s))"
    by (rule count_small)
  with b count_small [OF a] show ?thesis by simp
qed

lemma add_all_count:
  "unat (num_particles s) + length clicks \<le> 1025 \<Longrightarrow>
   unat (num_particles (add_all clicks s)) = unat (num_particles s) + length clicks"
proof (induction clicks s rule: add_all.induct)
  case (1 s)
  show ?case by simp
next
  case (2 pos_x pos_y fixed' clicks s)
  let ?s1 = "add_particle pos_x pos_y fixed' s"
  have a: "unat (num_particles s) \<le> 1025" using "2.prems" by simp
  have b: "unat (num_particles ?s1) = unat (num_particles s) + 1"
    using a by (simp add: add_particle_num small_succ)
  then have "unat (num_particles ?s1) + length clicks \<le> 1025" using "2.prems" by simp
  then have "unat (num_particles (add_all clicks ?s1)) = unat (num_particles ?s1) + length clicks"
    by (rule "2.IH")
  with b show ?case by simp
qed

lemma full_scene_num: "unat (num_particles full_scene) = 1024"
  using add_all_count [of main_scene "replicate max_num_particles (Fin 0.5, Fin 0.5, 0)"]
  by (simp add: full_scene_def max_num_particles_def main_scene_def init_scene_def)

lemma add_all_scene_count:
  assumes "length clicks \<le> 1025"
  shows "count (add_all clicks main_scene) = length clicks"
proof -
  have a: "unat (num_particles main_scene) = 0"
    by (simp add: main_scene_def init_scene_def)
  then have b: "unat (num_particles (add_all clicks main_scene)) = length clicks"
    using assms add_all_count [of main_scene clicks] by simp
  then have "unat (num_particles (add_all clicks main_scene)) \<le> 1025" using assms by simp
  then have "count (add_all clicks main_scene) = unat (num_particles (add_all clicks main_scene))"
    by (rule count_small)
  with b show ?thesis by simp
qed

section \<open>\<^verbatim>\<open>add_particle\<close>: the spring table\<close>

















section \<open>The claims\<close>

text \<open>
  C2. In every substep the force stored for a particle \<open>i\<close> below the particle count is
  gravity \<open>(0, -9.8)\<close> times the mass plus, for every \<open>j\<close> below the count whose rest length
  to \<open>i\<close> is not zero, the Hookean term and the dashpot term along the normalized
  \<open>pos[i] - pos[j]\<close>. The scan of particle \<open>i\<close> writes the force of \<open>i\<close> and of no other
  particle, so a spring is accumulated once from each of its ends and never applied to both
  ends at once.
\<close>

theorem substep_net_force:
  "i < count s \<Longrightarrow>
     f (compute_force s) i = net_force s i \<and> f (substep s) i = net_force s i \<and>
     f (compute_force_i js i s) = (f s)(i := force_on s js i)"
  by (simp add: substep_eq compute_force_eq compute_force_i_eq)

theorem substep_net_force_witness:
  "1 < count scenario \<and> f (substep scenario) 1 = (Fin 0, Fin 90.2)"
  using substep_net_force [of 1 scenario "[]"] net1
  by (simp add: count_scenario)

text \<open>
  C3. In every substep a particle that is not pinned gets
  \<open>velocity += dt * force / mass\<close>, then \<open>velocity *= exp(-dt * dragDamping)\<close>, then
  \<open>position += velocity * dt\<close> with the velocity just computed; the wall rule is applied
  to the result.
\<close>

theorem substep_unpinned:
  assumes "i < count s" and "fixed s i = 0"
  shows "(x (substep s) i, v (substep s) i) =
     clamp (let v1 = vadd (v s i) (vdivs (smul dt (net_force s i)) particle_mass);
                v2 = vmuls v1 (fexp (fmul (fneg dt) (drag_damping s)))
            in (vadd (x s i) (vmuls v2 dt), v2))"
  using assms
  by (simp add: substep_eq moved_def integrated_def compute_force_eq Let_def)

theorem substep_unpinned_witness:
  "2 < count scenario \<and> fixed scenario 2 = 0 \<and>
   v (substep scenario) 2 = (Fin 0, Fin (- 0.0098 * exp (- 0.001))) \<and>
   x (substep scenario) 2 = (Fin 0.6, Fin (0.6 - 0.0098 * exp (- 0.001) * 0.001))"
proof -
  have a: "2 < count scenario" by (simp add: count_scenario)
  have b: "fixed scenario 2 = 0" by (simp add: scenario_eq main_scene_def init_scene_def)
  have c: "x scenario 2 = (Fin 0.6, Fin 0.6)" "v scenario 2 = (Fin 0, Fin 0)"
    "drag_damping scenario = Fin 1"
    by (simp_all add: scenario_eq main_scene_def init_scene_def)
  have d: "\<not> 3 / 5 < exp (- (1 / 1000)) * (49 / 5000000 :: real)"
    using exp_bounds by linarith
  have e: "\<not> 1 < 3 / 5 - exp (- (1 / 1000)) * (49 / 5000000 :: real)"
    using exp_bounds by linarith
  show ?thesis
    using substep_unpinned [OF a b] a b d e
    by (simp add: net2 c dt_def particle_mass_def fgt_def)
qed

text \<open>
  C9. Clearing the scene twice gives the same scene as clearing it once: the particle count
  is 0 and every entry of the spring table is 0. The stored positions, velocities, forces
  and pinned flags are not touched.
\<close>

theorem clear_scene_idempotent:
  "clear_scene (clear_scene s) = clear_scene s \<and>
   num_particles (clear_scene s) = 0 \<and>
   (\<forall>i j. rest_length (clear_scene s) i j = Fin 0) \<and>
   x (clear_scene s) = x s \<and> v (clear_scene s) = v s \<and> f (clear_scene s) = f s \<and>
   fixed (clear_scene s) = fixed s"
  by (simp add: clear_scene_def)

text \<open>
  C4, as the code has it. After a substep the velocity of a pinned particle is \<open>(0, 0)\<close> and
  its position is its former position with the wall rule applied: a coordinate below 0
  becomes 0, one above 1 becomes 1. So a pinned particle on which no wall test fires keeps
  its position over any number of substeps; one placed outside the box is moved onto the
  wall by its first substep.
\<close>

theorem pinned_particle:
  assumes "i < count s" and "fixed s i \<noteq> 0"
  shows "v (substep s) i = (Fin 0, Fin 0) \<and> x (substep s) i = clamp_pos (x s i) \<and>
         (inside (x s i) \<longrightarrow> x ((substep ^^ k) s) i = x s i)"
  using assms by (simp add: pinned_substep pinned_substeps)

theorem pinned_particle_witness:
  "0 < count scenario \<and> fixed scenario 0 \<noteq> 0 \<and> inside (x scenario 0) \<and>
   v (substep scenario) 0 = (Fin 0, Fin 0) \<and>
   x ((substep ^^ 10) scenario) 0 = (Fin 0.3, Fin 0.3)"
proof -
  have a: "0 < count scenario" by (simp add: count_scenario)
  have b: "fixed scenario 0 \<noteq> 0" by (simp add: scenario_eq main_scene_def init_scene_def)
  have c: "x scenario 0 = (Fin 0.3, Fin 0.3)" by (simp add: scenario_eq main_scene_def init_scene_def)
  have d: "inside (x scenario 0)" by (simp add: c fgt_def)
  show ?thesis
    using pinned_particle [OF a b, of 10] a b c d by simp
qed

text \<open>
  The claim as stated, for a pinned particle at \<open>(-0.5, 0.5)\<close>: the substep moves it to
  \<open>(0, 0.5)\<close>.
\<close>

theorem pinned_particle_outside_counterexample:
  "0 < count outside_pin \<and> fixed outside_pin 0 \<noteq> 0 \<and>
   x outside_pin 0 = (Fin (- 0.5), Fin 0.5) \<and> x (substep outside_pin) 0 = (Fin 0, Fin 0.5) \<and>
   x (substep outside_pin) 0 \<noteq> x outside_pin 0"
  by (simp add: pinned_substep outside_pin_eq count_def clamp_pos_def fgt_def)

text \<open>
  C5, as the code has it. After a substep a position coordinate of a particle lies in
  \<open>[0, 1]\<close> unless the integration left NaN in it (NaN fails both wall tests and stays);
  a coordinate that the integration left below 0 is exactly 0, one left above 1 is exactly
  1, and in both cases the velocity component on that axis is exactly 0.
\<close>

theorem wall_rule:
  assumes "i < count s"
  shows "(coord (fst (integrated (compute_force s) i)) d \<noteq> NaN \<longrightarrow>
            in_unit (coord (x (substep s) i) d)) \<and>
         (flt (coord (fst (integrated (compute_force s) i)) d) (Fin 0) \<longrightarrow>
            coord (x (substep s) i) d = Fin 0 \<and> coord (v (substep s) i) d = Fin 0) \<and>
         (fgt (coord (fst (integrated (compute_force s) i)) d) (Fin 1) \<longrightarrow>
            coord (x (substep s) i) d = Fin 1 \<and> coord (v (substep s) i) d = Fin 0)"
proof -
  obtain p w where pw: "integrated (compute_force s) i = (p, w)"
    by (cases "integrated (compute_force s) i")
  have "clamp_axis (coord p d, coord w d) =
          (coord (fst (clamp (p, w))) d, coord (snd (clamp (p, w))) d)"
    by (rule clamp_coord [symmetric])
  also have "\<dots> = (coord (x (substep s) i) d, coord (v (substep s) i) d)"
    using assms by (simp add: substep_x substep_v moved_def pw)
  finally have eq: "clamp_axis (coord p d, coord w d) =
          (coord (x (substep s) i) d, coord (v (substep s) i) d)" .
  have "fst (integrated (compute_force s) i) = p"
    by (simp add: pw)
  with clamp_axis_cases [OF eq] show ?thesis
    by blast
qed

theorem wall_rule_witness:
  "0 < count floor_scene \<and>
   flt (coord (fst (integrated (compute_force floor_scene) 0)) 1) (Fin 0) \<and>
   coord (x (substep floor_scene) 0) 1 = Fin 0 \<and> coord (v (substep floor_scene) 0) 1 = Fin 0"
proof -
  have a: "0 < count floor_scene" by (simp add: floor_scene_eq count_def)
  have b: "flt (coord (fst (integrated (compute_force floor_scene) 0)) 1) (Fin 0)"
    by (simp add: floor_integrated)
  from wall_rule [OF a, of 1] a b show ?thesis by blast
qed

text \<open>
  The claim as stated, for two free particles added at the same place (hence joined by a
  spring): after one substep the position of particle 0 is NaN on both axes, which is not
  in \<open>[0, 1]\<close>.
\<close>

theorem wall_rule_nan_counterexample:
  "0 < count coincident \<and> x (substep coincident) 0 = (NaN, NaN) \<and>
   \<not> in_unit (coord (x (substep coincident) 0) 0) \<and>
   \<not> in_unit (coord (x (substep coincident) 0) 1)"
proof -
  have a: "0 < count coincident" "1 < count coincident"
    by (simp_all add: coincident_eq count_def)
  have b: "connected coincident 0 1" "x coincident 0 = x coincident 1"
    by (simp_all add: coincident_eq connected_def fne_def main_scene_def init_scene_def)
  have c: "fixed coincident 0 = 0"
    by (simp add: coincident_eq main_scene_def init_scene_def)
  from coincident_substep(2) [OF a b c] a show ?thesis by simp
qed

text \<open>
  C7, as the code has it. The force loop has no test for a zero separation. When two
  connected particles below the particle count hold the same position, the direction is
  the normalization of the zero vector, NaN on both axes; the force of the particle is NaN
  on both axes, and if the particle is not pinned its velocity and its position are NaN on
  both axes after the substep.
\<close>

theorem coincident_particles:
  assumes "i < count s" and "j < count s" and "connected s i j" and "x s i = x s j"
  shows "normalized (vsub (x s i) (x s j)) = (NaN, NaN) \<and>
         f (substep s) i = (NaN, NaN) \<and>
         (fixed s i = 0 \<longrightarrow> v (substep s) i = (NaN, NaN) \<and> x (substep s) i = (NaN, NaN))"
  using coincident_substep [OF assms] assms(4) by (simp add: normalized_zero)

theorem coincident_particles_witness:
  "0 < count coincident \<and> 1 < count coincident \<and> connected coincident 0 1 \<and>
   x coincident 0 = x coincident 1 \<and> fixed coincident 0 = 0 \<and>
   f (substep coincident) 0 = (NaN, NaN) \<and> v (substep coincident) 0 = (NaN, NaN)"
proof -
  have a: "0 < count coincident" "1 < count coincident"
    by (simp_all add: coincident_eq count_def)
  have b: "connected coincident 0 1" "x coincident 0 = x coincident 1"
    by (simp_all add: coincident_eq connected_def fne_def main_scene_def init_scene_def)
  have c: "fixed coincident 0 = 0"
    by (simp add: coincident_eq main_scene_def init_scene_def)
  from coincident_particles [OF a b] a b c show ?thesis by simp
qed

text \<open>
  The claim as stated, for a free particle added on top of a pinned one: the force, the
  velocity and the position of the free particle are NaN after one substep.
\<close>

theorem degenerate_separation_counterexample:
  "connected stacked 1 0 \<and> x stacked 1 = x stacked 0 \<and> fixed stacked 1 = 0 \<and>
   f (substep stacked) 1 = (NaN, NaN) \<and> v (substep stacked) 1 = (NaN, NaN) \<and>
   x (substep stacked) 1 = (NaN, NaN)"
proof -
  have a: "1 < count stacked" "0 < count stacked"
    by (simp_all add: stacked_eq count_def)
  have b: "connected stacked 1 0" "x stacked 1 = x stacked 0"
    by (simp_all add: stacked_eq connected_def fne_def main_scene_def init_scene_def)
  have c: "fixed stacked 1 = 0"
    by (simp add: stacked_eq main_scene_def init_scene_def)
  from coincident_substep [OF a b] b c show ?thesis by simp
qed

text \<open>
  C8. \<^verbatim>\<open>attract\<close> changes the velocity field and nothing else: positions, forces, pinned
  flags, the spring table and the particle count are those of the scene before. The
  velocity of every particle \<open>i\<close> below the particle count grows by
  \<open>-(dt * substeps * 100) * (position[i] - point)\<close>; the other slots of the velocity field
  keep their value.
\<close>

theorem attract_velocity:
  "attract px py s = s\<lparr>v := v (attract px py s)\<rparr> \<and>
   x (attract px py s) = x s \<and> f (attract px py s) = f s \<and>
   rest_length (attract px py s) = rest_length s \<and>
   num_particles (attract px py s) = num_particles s \<and>
   (i < count s \<longrightarrow> v (attract px py s) i = vadd (v s i) (nudge (x s i) (px, py))) \<and>
   (\<not> i < count s \<longrightarrow> v (attract px py s) i = v s i)"
  by (simp add: attract_eq)

theorem attract_velocity_witness:
  "1 < count scenario \<and>
   v (attract (Fin 0.5) (Fin 0.5) scenario) 1 = (Fin 0.2, Fin 0.11) \<and>
   x (attract (Fin 0.5) (Fin 0.5) scenario) = x scenario \<and>
   rest_length (attract (Fin 0.5) (Fin 0.5) scenario) = rest_length scenario \<and>
   num_particles (attract (Fin 0.5) (Fin 0.5) scenario) = num_particles scenario"
proof -
  have a: "1 < count scenario" by (simp add: count_scenario)
  have b: "x scenario 1 = (Fin 0.3, Fin 0.39)" "v scenario 1 = (Fin 0, Fin 0)"
    by (simp_all add: scenario_eq main_scene_def init_scene_def)
  have c: "nudge (Fin 0.3, Fin 0.39) (Fin 0.5, Fin 0.5) = (Fin 0.2, Fin 0.11)"
    by (simp add: nudge_def dt_def substeps_def attraction_gain_def fsub_def)
  have d: "attract (Fin 0.5) (Fin 0.5) scenario =
             scenario\<lparr>v := v (attract (Fin 0.5) (Fin 0.5) scenario)\<rparr>"
    using attract_velocity [of "Fin 0.5" "Fin 0.5" scenario 1] by blast
  have e: "v (attract (Fin 0.5) (Fin 0.5) scenario) 1 = (Fin 0.2, Fin 0.11)"
    using attract_velocity [of "Fin 0.5" "Fin 0.5" scenario 1] a b c by simp
  have "x (attract (Fin 0.5) (Fin 0.5) scenario) = x scenario"
    "rest_length (attract (Fin 0.5) (Fin 0.5) scenario) = rest_length scenario"
    "num_particles (attract (Fin 0.5) (Fin 0.5) scenario) = num_particles scenario"
    by (subst d, simp)+
  with a e show ?thesis by simp
qed

text \<open>
  C10, as the code has it. The loop of \<^verbatim>\<open>attract\<close> does not read the pinned flag. For a
  pinned particle below the particle count whose velocity is \<open>(0, 0)\<close> (as it is after
  every substep and right after \<^verbatim>\<open>add_particle\<close>), the velocity immediately after
  \<^verbatim>\<open>attract\<close> is the nudge \<open>-dt * substeps * (position - point) * 100\<close> as the loop
  computes it; so it is other than \<open>(0, 0)\<close> whenever that nudge is. The next substep sets
  it to \<open>(0, 0)\<close> again.
\<close>

theorem attract_pinned:
  assumes "i < count s" and "fixed s i \<noteq> 0" and "v s i = (Fin 0, Fin 0)"
    and "vmuls (smul (fmul (fneg dt) substeps) (vsub (x s i) (px, py))) (Fin 100) \<noteq> (Fin 0, Fin 0)"
  shows "v (attract px py s) i =
           vmuls (smul (fmul (fneg dt) substeps) (vsub (x s i) (px, py))) (Fin 100) \<and>
         v (attract px py s) i \<noteq> (Fin 0, Fin 0) \<and>
         v (substep (attract px py s)) i = (Fin 0, Fin 0)"
proof -
  have a: "v (attract px py s) i =
             vmuls (smul (fmul (fneg dt) substeps) (vsub (x s i) (px, py))) (Fin 100)"
    using assms(1,3) by (simp add: attract_eq nudge_def gain_vector)
  have "i < count (attract px py s)" "fixed (attract px py s) i \<noteq> 0"
    using assms(1,2) by (simp_all add: attract_fixed)
  then have c: "v (substep (attract px py s)) i = (Fin 0, Fin 0)"
    by (simp add: pinned_substep)
  from a assms(4) c show ?thesis by simp
qed

theorem attract_pinned_witness:
  "0 < count pin_paused \<and> fixed pin_paused 0 \<noteq> 0 \<and> v pin_paused 0 = (Fin 0, Fin 0) \<and>
   vmuls (smul (fmul (fneg dt) substeps) (vsub (x pin_paused 0) (Fin 0.25, Fin 0.5))) (Fin 100) =
     (Fin (- 0.25), Fin 0) \<and>
   v (attract (Fin 0.25) (Fin 0.5) pin_paused) 0 = (Fin (- 0.25), Fin 0) \<and>
   v (attract (Fin 0.25) (Fin 0.5) pin_paused) 0 \<noteq> (Fin 0, Fin 0) \<and>
   v (substep (attract (Fin 0.25) (Fin 0.5) pin_paused)) 0 = (Fin 0, Fin 0)"
proof -
  have a: "0 < count pin_paused" "fixed pin_paused 0 \<noteq> 0" "v pin_paused 0 = (Fin 0, Fin 0)"
    by (simp_all add: pin_paused_eq count_def main_scene_def init_scene_def)
  have b: "vmuls (smul (fmul (fneg dt) substeps) (vsub (x pin_paused 0) (Fin 0.25, Fin 0.5)))
             (Fin 100) = (Fin (- 0.25), Fin 0)"
    by (simp add: pin_paused_eq dt_def substeps_def fsub_def main_scene_def init_scene_def)
  then have c: "vmuls (smul (fmul (fneg dt) substeps) (vsub (x pin_paused 0) (Fin 0.25, Fin 0.5)))
             (Fin 100) \<noteq> (Fin 0, Fin 0)"
    by simp
  from attract_pinned [OF a c] a b show ?thesis by simp
qed

text \<open>
  The claim as stated, for a pinned particle at \<open>(0.5, 0.5)\<close> while the simulation is
  paused (no substep runs between two calls of \<^verbatim>\<open>attract\<close>): after \<^verbatim>\<open>attract\<close> at
  \<open>(0.25, 0.5)\<close> and then at \<open>(0.75, 0.5)\<close> the two nudges cancel and the velocity is
  \<open>(0, 0)\<close>, although the position differs from the attraction point.
\<close>

theorem attract_pinned_counterexample:
  "0 < count (attract (Fin 0.25) (Fin 0.5) pin_paused) \<and>
   fixed (attract (Fin 0.25) (Fin 0.5) pin_paused) 0 \<noteq> 0 \<and>
   x (attract (Fin 0.25) (Fin 0.5) pin_paused) 0 = (Fin 0.5, Fin 0.5) \<and>
   x (attract (Fin 0.25) (Fin 0.5) pin_paused) 0 \<noteq> (Fin 0.75, Fin 0.5) \<and>
   v (attract (Fin 0.75) (Fin 0.5) (attract (Fin 0.25) (Fin 0.5) pin_paused)) 0 = (Fin 0, Fin 0)"
  by (simp add: attract_eq pin_paused_eq count_def nudge_def dt_def substeps_def
        attraction_gain_def main_scene_def init_scene_def fsub_def)



text \<open>
  C1, as the code has it. \<^verbatim>\<open>add_particle\<close> has no capacity test and no failure. For a
  scene holding \<open>k \<le> max_num_particles\<close> particles the call increments the particle count
  by 1, also when \<open>k = max_num_particles\<close>; so the count after \<open>m\<close> calls from the empty
  scene is \<open>m\<close>, for every \<open>m\<close> up to \<open>max_num_particles + 1\<close>. When
  \<open>k < max_num_particles\<close> the new particle is stored in slot \<open>k\<close> with the position and
  the pinned flag of the call and velocity \<open>(0, 0)\<close>.
\<close>

theorem add_particle_count:
  assumes "unat (num_particles s) \<le> max_num_particles"
  shows "count s = unat (num_particles s) \<and>
         count (add_particle px py fx s) = count s + 1 \<and>
         (count s < max_num_particles \<longrightarrow>
            x (add_particle px py fx s) (count s) = (px, py) \<and>
            v (add_particle px py fx s) (count s) = (Fin 0, Fin 0) \<and>
            fixed (add_particle px py fx s) (count s) = fx) \<and>
         (length clicks \<le> max_num_particles + 1 \<longrightarrow>
            count (add_all clicks main_scene) = length clicks)"
proof -
  have a: "unat (num_particles s) \<le> 1024" using assms by (simp add: max_num_particles_def)
  then have "unat (num_particles s) \<le> 1025" by simp
  then have b: "count s = unat (num_particles s)" by (rule count_small)
  from a have c: "count (add_particle px py fx s) = count s + 1"
    by (rule count_after_add)
  from b c show ?thesis
    by (simp add: add_particle_slot add_all_scene_count max_num_particles_def)
qed

theorem add_particle_count_witness:
  "unat (num_particles scenario) \<le> max_num_particles \<and> count scenario = 3 \<and>
   count (add_particle (Fin 0.1) (Fin 0.2) 1 scenario) = 4 \<and>
   x (add_particle (Fin 0.1) (Fin 0.2) 1 scenario) 3 = (Fin 0.1, Fin 0.2)"
proof -
  have a: "num_particles scenario = 3"
    by (simp add: scenario_def add_particle_num main_scene_def init_scene_def)
  have b: "unat (num_particles scenario) \<le> max_num_particles"
    by (simp add: a max_num_particles_def)
  from add_particle_count [OF b, of "Fin 0.1" "Fin 0.2" 1] b show ?thesis
    by (simp add: count_scenario max_num_particles_def)
qed

text \<open>
  The claim as stated, for the scene after \<open>max_num_particles\<close> left clicks: it holds
  \<open>max_num_particles\<close> particles and one more call of \<^verbatim>\<open>add_particle\<close> makes the count
  \<open>max_num_particles + 1\<close> instead of leaving it unchanged.
\<close>

theorem capacity_counterexample:
  "count full_scene = max_num_particles \<and>
   count (add_particle (Fin 0.5) (Fin 0.5) 0 full_scene) = max_num_particles + 1 \<and>
   count (add_particle (Fin 0.5) (Fin 0.5) 0 full_scene) \<noteq> count full_scene"
proof -
  have a: "unat (num_particles full_scene) \<le> 1024" by (simp add: full_scene_num)
  then have "unat (num_particles full_scene) \<le> 1025" by simp
  then have b: "count full_scene = 1024" by (simp add: count_small full_scene_num)
  from count_after_add [OF a] b show ?thesis
    by (simp add: max_num_particles_def)
qed

end
